theory Spec2Isabelle
  imports Main
begin

section \<open>Data model of the note controller\<close>

text \<open>
  The controller (backend/src/controllers/noteController.js) serves six requests over two
  document collections, \<open>Note\<close> and \<open>User\<close>. Object identifiers and timestamps are
  natural numbers, texts are strings. A document of the \<open>User\<close> collection carries the
  fields the controller reads: \<open>_id\<close>, \<open>name\<close>, \<open>email\<close>.
\<close>

record user =
  user_id :: nat
  name :: string
  email :: string

text \<open>An embedded entry of \<open>note.collaborators\<close>; the permission is the stored text.\<close>

record collaborator =
  userId :: nat
  permission :: string

record Note =
  note_id :: nat
  title :: string
  content :: "string option"
  createdBy :: nat
  collaborators :: "collaborator list"
  isArchived :: bool
  lastUpdated :: nat

text \<open>
  A call \<open>notifyCollaborators(noteId, message, excludedUserId)\<close> of the socket layer, as the
  controller issues it.
\<close>

record notify_call =
  n_noteId :: nat
  n_message :: string
  n_excludedUserId :: nat

text \<open>
  The state a request runs against: both collections, the source of fresh note identifiers,
  and the calls made to the socket layer so far (oldest first).
\<close>

record state =
  note_store :: "Note list"
  user_store :: "user list"
  next_id :: nat
  outbox :: "notify_call list"

text \<open>
  A failed request answers with an HTTP status and a \<open>message\<close>; the error taxonomy names
  the statuses the controller uses.
\<close>

type_synonym http_error = "nat \<times> string"

datatype failure = ValidationError | NotFound | Forbidden | InternalError

fun failure_of :: "http_error \<Rightarrow> failure option" where
  "failure_of (st, msg) =
     (if st = 400 then Some ValidationError
      else if st = 404 then Some NotFound
      else if st = 403 then Some Forbidden
      else if st = 500 then Some InternalError
      else None)"

section \<open>Persistence operations\<close>

text \<open>\<open>Note.findById(id)\<close>: the document with that identifier, or null.\<close>

definition findById :: "Note list \<Rightarrow> nat \<Rightarrow> Note option" where
  "findById ns i = List.find (\<lambda>n. note_id n = i) ns"

text \<open>
  Writing back the document with identifier \<open>i\<close>, as \<open>note.save()\<close> and
  \<open>Note.findByIdAndUpdate\<close> do: the stored document is replaced by \<open>f\<close> of it.
\<close>

fun update_by_id :: "nat \<Rightarrow> (Note \<Rightarrow> Note) \<Rightarrow> Note list \<Rightarrow> Note list" where
  "update_by_id i f [] = []"
| "update_by_id i f (n # ns) =
     (if note_id n = i then f n # ns else n # update_by_id i f ns)"

text \<open>\<open>note.deleteOne()\<close>: the document with identifier \<open>i\<close> leaves the collection.\<close>

fun delete_by_id :: "nat \<Rightarrow> Note list \<Rightarrow> Note list" where
  "delete_by_id i [] = []"
| "delete_by_id i (n # ns) = (if note_id n = i then ns else n # delete_by_id i ns)"

text \<open>\<open>User.findOne({ email })\<close>.\<close>

definition findOne :: "user list \<Rightarrow> string \<Rightarrow> user option" where
  "findOne us e = List.find (\<lambda>u. email u = e) us"

text \<open>
  \<open>populate\<close> replaces a stored user identifier by the user document it refers to, and by
  null when the \<open>User\<close> collection has no such document.
\<close>

definition populate :: "user list \<Rightarrow> nat \<Rightarrow> user option" where
  "populate us i = List.find (\<lambda>u. user_id u = i) us"

text \<open>
  Reading \<open>_id\<close> of a populated reference that is null throws a TypeError, which the
  enclosing \<open>try\<close> turns into status 500. An expression that may throw so yields an
  \<open>attempt\<close>.
\<close>

datatype 'a attempt = TypeError | Returned 'a

text \<open>
  \<open>note.collaborators.find(c => c.userId._id.equals(u))\<close> on the populated note: the first
  entry of user \<open>u\<close>, reading every entry before it.
\<close>

fun find_collaborator ::
  "user list \<Rightarrow> nat \<Rightarrow> collaborator list \<Rightarrow> collaborator option attempt" where
  "find_collaborator us u [] = Returned None"
| "find_collaborator us u (c # cs) =
     (case populate us (userId c) of
        None \<Rightarrow> TypeError
      | Some p \<Rightarrow> if user_id p = u then Returned (Some c) else find_collaborator us u cs)"

text \<open>
  \<open>note.collaborators.map(c => ({ userId: c.userId._id.toString(), ... }))\<close> reads every
  entry; it completes when all of them are resolved.
\<close>

definition all_resolved :: "user list \<Rightarrow> collaborator list \<Rightarrow> bool" where
  "all_resolved us cs = list_all (\<lambda>c. populate us (userId c) \<noteq> None) cs"

section \<open>The Note schema\<close>

text \<open>
  \<open>trim\<close> of a text removes the white space at both ends; texts are taken as ASCII.
\<close>

definition is_space :: "char \<Rightarrow> bool" where
  "is_space c = (c \<in> set [CHR 0x20, CHR 0x09, CHR 0x0A, CHR 0x0B, CHR 0x0C, CHR 0x0D])"

definition trim :: "string \<Rightarrow> string" where
  "trim t = rev (dropWhile is_space (rev (dropWhile is_space t)))"

text \<open>
  Modelled from the spec: the validation of the Note schema (backend/src/models/Note.js is
  not among the sources). The spec's create contract gives the title as required and
  non-empty after trim, and the content as optional.
\<close>

definition title_valid :: "string option \<Rightarrow> bool" where
  "title_valid t = (case t of None \<Rightarrow> False | Some x \<Rightarrow> trim x \<noteq> [])"

text \<open>
  Modelled from the spec: the document \<open>new Note({ title, content, createdBy })\<close> builds
  with the defaults of the Note schema (backend/src/models/Note.js is not among the
  sources). By the spec's data model and create contract a new note has no collaborators,
  is not archived, and has \<open>lastUpdated\<close> set to the creation time.
\<close>

definition new_Note :: "nat \<Rightarrow> nat \<Rightarrow> string \<Rightarrow> string option \<Rightarrow> nat \<Rightarrow> Note" where
  "new_Note i now t c owner =
     \<lparr>note_id = i, title = t, content = c, createdBy = owner, collaborators = [],
      isArchived = False, lastUpdated = now\<rparr>"

section \<open>The socket layer\<close>

text \<open>
  Modelled from the spec: \<open>notifyCollaborators\<close> of the socket layer
  (backend/src/socket/handler.js is not among the sources), after the spec's notification
  interface: a push of the message to all current watchers of the note except
  \<open>excludedUserId\<close>. Given the watchers of the call's note, the result lists who receives
  which message.
\<close>

definition notifyCollaborators :: "nat list \<Rightarrow> notify_call \<Rightarrow> (nat \<times> string) list" where
  "notifyCollaborators watchers c =
     map (\<lambda>u. (u, n_message c)) (filter (\<lambda>u. u \<noteq> n_excludedUserId c) watchers)"

section \<open>The controller\<close>

text \<open>
  Every handler takes the authenticated requester \<open>req.user\<close> as \<open>req\<close> and returns the
  state it leaves with its answer: \<open>Inl\<close> of status and message, or \<open>Inr\<close> of the JSON
  body of a success. The debug \<open>permissionInfo\<close> bodies and the console output are left
  out, but not the reads they perform. Request values are texts, \<open>None\<close> standing for a
  field or query parameter that is \<open>undefined\<close>; \<open>new Date()\<close> is the argument \<open>now\<close>.
\<close>

subsection \<open>List notes\<close>

record pagination =
  currentPage :: int
  totalPages :: int
  totalNotes :: int
  hasNextPage :: bool
  hasPrevPage :: bool

record listing =
  listed_notes :: "Note list"
  pagination :: pagination

text \<open>The filter \<open>{ $or: [{createdBy}, {'collaborators.userId'}], isArchived }\<close>.\<close>

definition query_matches :: "nat \<Rightarrow> bool \<Rightarrow> Note \<Rightarrow> bool" where
  "query_matches u showArchived n =
     ((createdBy n = u \<or> u \<in> set (map userId (collaborators n)))
      \<and> isArchived n = showArchived)"

text \<open>\<open>Math.ceil(totalNotes / limit)\<close> for a non-zero \<open>limit\<close>.\<close>

definition ceil_div :: "int \<Rightarrow> int \<Rightarrow> int" where
  "ceil_div a b = - ((- a) div b)"

text \<open>
  \<open>page_q\<close> and \<open>limit_q\<close> are the results of \<open>parseInt\<close> on the query parameters
  (\<open>None\<close> for NaN), so that \<open>|| 1\<close> and \<open>|| 10\<close> replace NaN and 0. The store rejects a
  negative \<open>skip\<close>, which the handler answers with status 500, and reads a negative
  \<open>limit\<close> as its absolute value. Notes are sorted by \<open>lastUpdated\<close>, latest first.
\<close>

definition getNotes ::
  "state \<Rightarrow> user \<Rightarrow> int option \<Rightarrow> int option \<Rightarrow> string option \<Rightarrow> http_error + listing" where
  "getNotes s req page_q limit_q showArchived_q =
     (let uid = user_id req;
          page = (case page_q of None \<Rightarrow> 1 | Some p \<Rightarrow> if p = 0 then 1 else p);
          limit = (case limit_q of None \<Rightarrow> 10 | Some l \<Rightarrow> if l = 0 then 10 else l);
          showArchived = (showArchived_q = Some ''true'');
          matching = filter (query_matches uid showArchived) (note_store s);
          hasNotes = (matching \<noteq> [])
      in if \<not> hasNotes \<and> page = 1
         then Inr \<lparr>listed_notes = [],
                   pagination = \<lparr>currentPage = 1, totalPages = 0, totalNotes = 0,
                                 hasNextPage = False, hasPrevPage = False\<rparr>\<rparr>
         else
           let total = int (length matching);
               pages = (if ceil_div total limit = 0 then 1 else ceil_div total limit)
           in if (page - 1) * limit < 0
              then Inl (500, ''Error fetching notes'')
              else Inr \<lparr>listed_notes =
                          take (nat \<bar>limit\<bar>)
                            (drop (nat ((page - 1) * limit))
                               (rev (sort_key lastUpdated matching))),
                        pagination = \<lparr>currentPage = page, totalPages = pages,
                                      totalNotes = total,
                                      hasNextPage = (page < pages),
                                      hasPrevPage = (page > 1)\<rparr>\<rparr>)"

subsection \<open>Get single note\<close>

text \<open>The note with the two fields the handlers add to it.\<close>

record note_response =
  resp_note :: Note
  isOwnedByCurrentUser :: bool
  userPermission :: string

definition getNote :: "state \<Rightarrow> user \<Rightarrow> nat \<Rightarrow> http_error + note_response" where
  "getNote s req i =
     (case findById (note_store s) i of
        None \<Rightarrow> Inl (404, ''Note not found'')
      | Some doc \<Rightarrow>
          (case populate (user_store s) (createdBy doc) of
             None \<Rightarrow> Inl (500, ''Error fetching note'')
           | Some owner \<Rightarrow>
               let isCreator = (user_id owner = user_id req)
               in (case find_collaborator (user_store s) (user_id req) (collaborators doc) of
                     TypeError \<Rightarrow> Inl (500, ''Error fetching note'')
                   | Returned collaborator \<Rightarrow>
                       let hasAccess = (isCreator \<or> collaborator \<noteq> None)
                       in if \<not> hasAccess then Inl (403, ''Access denied'')
                          else Inr \<lparr>resp_note = doc,
                                    isOwnedByCurrentUser = isCreator,
                                    userPermission =
                                      (if isCreator then ''write''
                                       else case collaborator of
                                              Some c \<Rightarrow> permission c
                                            | None \<Rightarrow> ''read'')\<rparr>)))"

subsection \<open>Create note\<close>

text \<open>
  The handler validates nothing itself: \<open>note.save()\<close> rejects a document the schema does
  not accept, and the \<open>catch\<close> answers every rejection with status 500. A success is
  answered with status 201 and the new note.
\<close>

definition createNote ::
  "state \<Rightarrow> user \<Rightarrow> nat \<Rightarrow> string option \<Rightarrow> string option \<Rightarrow> state \<times> (http_error + Note)" where
  "createNote s req now t c =
     (if \<not> title_valid t then (s, Inl (500, ''Error creating note''))
      else case t of
             None \<Rightarrow> (s, Inl (500, ''Error creating note''))
           | Some x \<Rightarrow>
               let doc = new_Note (next_id s) now x c (user_id req)
               in (s\<lparr>note_store := note_store s @ [doc], next_id := Suc (next_id s)\<rparr>,
                   Inr doc))"

subsection \<open>Update note\<close>

text \<open>The fields \<open>$set\<close> writes: those supplied, and \<open>lastUpdated\<close>.\<close>

definition set_fields :: "string option \<Rightarrow> string option \<Rightarrow> nat \<Rightarrow> Note \<Rightarrow> Note" where
  "set_fields t c now doc =
     (let d1 = (case t of None \<Rightarrow> doc | Some x \<Rightarrow> doc\<lparr>title := x\<rparr>);
          d2 = (case c of None \<Rightarrow> d1 | Some y \<Rightarrow> d1\<lparr>content := Some y\<rparr>)
      in d2\<lparr>lastUpdated := now\<rparr>)"

definition updateNote ::
  "state \<Rightarrow> user \<Rightarrow> nat \<Rightarrow> nat \<Rightarrow> string option \<Rightarrow> string option
     \<Rightarrow> state \<times> (http_error + note_response)" where
  "updateNote s req now i t c =
     (case findById (note_store s) i of
        None \<Rightarrow> (s, Inl (404, ''Note not found''))
      | Some doc \<Rightarrow>
          (case populate (user_store s) (createdBy doc) of
             None \<Rightarrow> (s, Inl (500, ''Error updating note''))
           | Some owner \<Rightarrow>
               let isCreator = (user_id owner = user_id req)
               in (case find_collaborator (user_store s) (user_id req) (collaborators doc) of
                     TypeError \<Rightarrow> (s, Inl (500, ''Error updating note''))
                   | Returned collaborator \<Rightarrow>
                       let canWrite =
                             (isCreator \<or>
                              (case collaborator of
                                 None \<Rightarrow> False
                               | Some k \<Rightarrow> permission k = ''write''))
                       in if \<not> canWrite
                          then (if all_resolved (user_store s) (collaborators doc)
                                then (s, Inl (403, ''Write access denied''))
                                else (s, Inl (500, ''Error updating note'')))
                          else
                            let updatedNote = set_fields t c now doc;
                                owned = (user_id owner = user_id req)
                            in (s\<lparr>note_store :=
                                     update_by_id i (set_fields t c now) (note_store s),
                                   outbox := outbox s @
                                     [\<lparr>n_noteId = note_id updatedNote,
                                       n_message = ''Note '' @ [CHR 0x22] @ title updatedNote
                                         @ [CHR 0x22] @ '' was updated by '' @ name req,
                                       n_excludedUserId = user_id req\<rparr>]\<rparr>,
                                Inr \<lparr>resp_note = updatedNote,
                                     isOwnedByCurrentUser = owned,
                                     userPermission =
                                       (if owned then ''write''
                                        else case collaborator of
                                               Some k \<Rightarrow> permission k
                                             | None \<Rightarrow> ''read'')\<rparr>))))"

subsection \<open>Delete note\<close>

text \<open>
  \<open>deleteNote\<close> reads the note without resolving references and compares the stored owner
  identifier with the requester's.
\<close>

definition deleteNote :: "state \<Rightarrow> user \<Rightarrow> nat \<Rightarrow> state \<times> (http_error + string)" where
  "deleteNote s req i =
     (case findById (note_store s) i of
        None \<Rightarrow> (s, Inl (404, ''Note not found''))
      | Some doc \<Rightarrow>
          if createdBy doc \<noteq> user_id req
          then (s, Inl (403, ''Only the creator can delete the note''))
          else (s\<lparr>note_store := delete_by_id i (note_store s)\<rparr>,
                Inr ''Note deleted successfully''))"

subsection \<open>Share note\<close>

text \<open>\<open>existingCollaborator.permission = permission\<close> on the entry \<open>find\<close> returned.\<close>

fun set_permission :: "nat \<Rightarrow> string \<Rightarrow> collaborator list \<Rightarrow> collaborator list" where
  "set_permission u p [] = []"
| "set_permission u p (c # cs) =
     (if userId c = u then c\<lparr>permission := p\<rparr> # cs else c # set_permission u p cs)"

definition shareNote ::
  "state \<Rightarrow> user \<Rightarrow> nat \<Rightarrow> string \<Rightarrow> string \<Rightarrow> state \<times> (http_error + Note)" where
  "shareNote s req i email_in perm =
     (if perm \<notin> set [''read'', ''write'']
      then (s, Inl (400, ''Invalid permission type''))
      else
        case findById (note_store s) i of
          None \<Rightarrow> (s, Inl (404, ''Note not found''))
        | Some doc \<Rightarrow>
            (case populate (user_store s) (createdBy doc) of
               None \<Rightarrow> (s, Inl (500, ''Error sharing note''))
             | Some owner \<Rightarrow>
                 if user_id owner \<noteq> user_id req
                 then (s, Inl (403, ''Only the creator can share the note''))
                 else
                   (case findOne (user_store s) email_in of
                      None \<Rightarrow> (s, Inl (404, ''User not found''))
                    | Some target \<Rightarrow>
                        if \<not> all_resolved (user_store s) (collaborators doc)
                        then (s, Inl (500, ''Error sharing note''))
                        else
                          (case find_collaborator (user_store s) (user_id target)
                                  (collaborators doc) of
                             TypeError \<Rightarrow> (s, Inl (500, ''Error sharing note''))
                           | Returned existingCollaborator \<Rightarrow>
                               let saved = doc\<lparr>collaborators :=
                                     (case existingCollaborator of
                                        Some k \<Rightarrow>
                                          set_permission (user_id target) perm
                                            (collaborators doc)
                                      | None \<Rightarrow>
                                          collaborators doc @
                                            [\<lparr>userId = user_id target,
                                              permission = perm\<rparr>])\<rparr>
                               in (s\<lparr>note_store :=
                                        update_by_id i (\<lambda>d. saved) (note_store s),
                                      outbox := outbox s @
                                        [\<lparr>n_noteId = note_id saved,
                                          n_message = ''You were given '' @ perm
                                            @ '' access to '' @ [CHR 0x22] @ title saved
                                            @ [CHR 0x22] @ '' by '' @ name req,
                                          n_excludedUserId = user_id target\<rparr>]\<rparr>,
                                   Inr saved)))))"

section \<open>Runs of the service\<close>

text \<open>
  The requests that change the state, each with the requester the authentication layer
  attached and, where the handler reads the clock, the time it read.
\<close>

datatype request =
  CreateNote user nat "string option" "string option"
| UpdateNote user nat nat "string option" "string option"
| DeleteNote user nat
| ShareNote user nat string string

fun requester :: "request \<Rightarrow> user" where
  "requester (CreateNote req now t c) = req"
| "requester (UpdateNote req now i t c) = req"
| "requester (DeleteNote req i) = req"
| "requester (ShareNote req i e p) = req"

fun step :: "state \<Rightarrow> request \<Rightarrow> state" where
  "step s (CreateNote req now t c) = fst (createNote s req now t c)"
| "step s (UpdateNote req now i t c) = fst (updateNote s req now i t c)"
| "step s (DeleteNote req i) = fst (deleteNote s req i)"
| "step s (ShareNote req i e p) = fst (shareNote s req i e p)"

definition run :: "state \<Rightarrow> request list \<Rightarrow> state" where
  "run s rs = foldl step s rs"

text \<open>The service before its first request, over a given \<open>User\<close> collection.\<close>

definition initial :: "user list \<Rightarrow> state" where
  "initial us = \<lparr>note_store = [], user_store = us, next_id = 0, outbox = []\<rparr>"

text \<open>
  \<open>reachable us rs s\<close>: the requests \<open>rs\<close>, each by a user of the collection \<open>us\<close>, lead
  from the initial state to \<open>s\<close>.
\<close>

definition reachable :: "user list \<Rightarrow> request list \<Rightarrow> state \<Rightarrow> bool" where
  "reachable us rs s = (list_all (\<lambda>r. requester r \<in> set us) rs \<and> s = run (initial us) rs)"

section \<open>Vocabulary of the properties\<close>

definition succeeded :: "http_error + 'a \<Rightarrow> bool" where
  "succeeded r = (case r of Inl e \<Rightarrow> False | Inr b \<Rightarrow> True)"

definition failed_with :: "http_error + 'a \<Rightarrow> failure \<Rightarrow> bool" where
  "failed_with r f = (case r of Inl e \<Rightarrow> failure_of e = Some f | Inr b \<Rightarrow> False)"

text \<open>
  What the handlers rely on in a stored note: its owner and its collaborators are documents
  of the \<open>User\<close> collection, and no user has two collaborator entries.
\<close>

definition note_ok :: "user list \<Rightarrow> Note \<Rightarrow> bool" where
  "note_ok us n =
     (populate us (createdBy n) \<noteq> None \<and> all_resolved us (collaborators n)
      \<and> distinct (map userId (collaborators n)))"

definition state_ok :: "state \<Rightarrow> bool" where
  "state_ok s = list_all (note_ok (user_store s)) (note_store s)"

text \<open>No stored note lists its owner among its collaborators.\<close>

definition owner_not_stored :: "state \<Rightarrow> bool" where
  "owner_not_stored s =
     list_all (\<lambda>n. createdBy n \<notin> set (map userId (collaborators n))) (note_store s)"

text \<open>
  The collaborators list after sharing with user \<open>u\<close> at permission \<open>p\<close>, as an upsert:
  the entry of \<open>u\<close> is overwritten when there is one, and appended otherwise.
\<close>

definition upsert :: "nat \<Rightarrow> string \<Rightarrow> collaborator list \<Rightarrow> collaborator list" where
  "upsert u p cs =
     (if u \<in> set (map userId cs) then set_permission u p cs
      else cs @ [\<lparr>userId = u, permission = p\<rparr>])"

text \<open>The listing of the short-circuit for a user without notes.\<close>

definition zero_listing :: listing where
  "zero_listing =
     \<lparr>listed_notes = [],
      pagination = \<lparr>currentPage = 1, totalPages = 0, totalNotes = 0,
                    hasNextPage = False, hasPrevPage = False\<rparr>\<rparr>"

text \<open>A share request whose email is the requester's own.\<close>

fun self_share :: "user list \<Rightarrow> request \<Rightarrow> bool" where
  "self_share us (ShareNote req i e p) =
     (case findOne us e of None \<Rightarrow> False | Some target \<Rightarrow> user_id target = user_id req)"
| "self_share us r = False"

subsection \<open>A sample run\<close>

definition alice :: user where
  "alice = \<lparr>user_id = 1, name = ''Alice'', email = ''alice@example.com''\<rparr>"

definition bob :: user where
  "bob = \<lparr>user_id = 2, name = ''Bob'', email = ''bob@example.com''\<rparr>"

definition carol :: user where
  "carol = \<lparr>user_id = 3, name = ''Carol'', email = ''carol@example.com''\<rparr>"

definition dave :: user where
  "dave = \<lparr>user_id = 4, name = ''Dave'', email = ''dave@example.com''\<rparr>"

definition sample_users :: "user list" where
  "sample_users = [alice, bob, carol, dave]"

text \<open>Alice creates the note ``Trip Plan'' and lets Carol read it and Bob write it.\<close>

definition sample_requests :: "request list" where
  "sample_requests =
     [CreateNote alice 5 (Some ''Trip Plan'') None,
      ShareNote alice 0 ''carol@example.com'' ''read'',
      ShareNote alice 0 ''bob@example.com'' ''write'']"

definition trip_plan :: Note where
  "trip_plan =
     \<lparr>note_id = 0, title = ''Trip Plan'', content = None, createdBy = 1,
      collaborators = [\<lparr>userId = 3, permission = ''read''\<rparr>,
                       \<lparr>userId = 2, permission = ''write''\<rparr>],
      isArchived = False, lastUpdated = 5\<rparr>"

definition sample_state :: state where
  "sample_state = run (initial sample_users) sample_requests"

text \<open>The same run before anything is shared, and before Bob is given access.\<close>

definition created_requests :: "request list" where
  "created_requests = [CreateNote alice 5 (Some ''Trip Plan'') None]"

definition created_state :: state where
  "created_state = run (initial sample_users) created_requests"

definition shared_with_carol :: state where
  "shared_with_carol =
     run (initial sample_users)
       [CreateNote alice 5 (Some ''Trip Plan'') None,
        ShareNote alice 0 ''carol@example.com'' ''read'']"

text \<open>Alice creates the note and shares it with her own email address.\<close>

definition self_share_requests :: "request list" where
  "self_share_requests =
     [CreateNote alice 5 (Some ''Trip Plan'') None,
      ShareNote alice 0 ''alice@example.com'' ''read'']"


section \<open>Facts about the persistence operations\<close>

lemma findById_Some: "findById ns i = Some n \<Longrightarrow> n \<in> set ns \<and> note_id n = i"
  by (auto simp: findById_def find_Some_iff)

lemma populate_Some: "populate us i = Some p \<Longrightarrow> p \<in> set us \<and> user_id p = i"
  by (auto simp: populate_def find_Some_iff)

lemma populate_member: "p \<in> set us \<Longrightarrow> \<exists>q. populate us (user_id p) = Some q"
  by (cases "populate us (user_id p)") (auto simp: populate_def find_None_iff)

lemma findOne_Some: "findOne us e = Some p \<Longrightarrow> p \<in> set us \<and> email p = e"
  by (auto simp: findOne_def find_Some_iff)

lemma list_all_update_by_id:
  "list_all P ns \<Longrightarrow> (\<And>n. P n \<Longrightarrow> P (f n)) \<Longrightarrow> list_all P (update_by_id i f ns)"
  by (induction ns) auto

lemma list_all_delete_by_id: "list_all P ns \<Longrightarrow> list_all P (delete_by_id i ns)"
  by (induction ns) auto

lemma findById_update_by_id:
  "findById ns i = Some n \<Longrightarrow> note_id (f n) = i \<Longrightarrow>
     findById (update_by_id i f ns) i = Some (f n)"
  by (induction ns) (auto simp: findById_def split: if_splits)

lemma findById_update_by_id_other:
  "j \<noteq> i \<Longrightarrow> (\<And>n. note_id (f n) = note_id n) \<Longrightarrow>
     findById (update_by_id i f ns) j = findById ns j"
  by (induction ns) (auto simp: findById_def split: if_splits)

lemma update_by_id_same: "findById ns i = Some n \<Longrightarrow> update_by_id i (\<lambda>d. n) ns = ns"
  by (induction ns) (auto simp: findById_def split: if_splits)

lemma set_fields_eq:
  "set_fields t c now n =
     n\<lparr>title := (case t of None \<Rightarrow> title n | Some x \<Rightarrow> x),
       content := (case c of None \<Rightarrow> content n | Some y \<Rightarrow> Some y),
       lastUpdated := now\<rparr>"
  by (simp add: set_fields_def Let_def split: option.splits)

subsection \<open>Collaborator lists\<close>

text \<open>On a list whose entries all resolve, \<open>find\<close> does not throw.\<close>

lemma find_collaborator_resolved:
  "all_resolved us cs \<Longrightarrow>
     find_collaborator us u cs = Returned (List.find (\<lambda>c. userId c = u) cs)"
proof (induction cs)
  case Nil
  then show ?case by simp
next
  case (Cons c cs)
  then obtain p where p: "populate us (userId c) = Some p"
    by (auto simp: all_resolved_def)
  then have "user_id p = userId c" by (simp add: populate_Some)
  with Cons p show ?case by (simp add: all_resolved_def)
qed

lemma find_userId_None: "(List.find (\<lambda>c. userId c = u) cs = None) = (u \<notin> set (map userId cs))"
  by (auto simp: find_None_iff)

lemma find_userId_Some:
  "distinct (map userId cs) \<Longrightarrow>
     (List.find (\<lambda>c. userId c = u) cs = Some k) = (k \<in> set cs \<and> userId k = u)"
  by (induction cs) auto

lemma map_userId_set_permission: "map userId (set_permission u p cs) = map userId cs"
  by (induction cs) auto

lemma length_set_permission: "length (set_permission u p cs) = length cs"
  by (induction cs) auto

lemma all_resolved_set_permission:
  "all_resolved us (set_permission u p cs) = all_resolved us cs"
  by (induction cs) (auto simp: all_resolved_def)

lemma set_permission_idem:
  "set_permission u p (set_permission u p cs) = set_permission u p cs"
  by (induction cs) auto

lemma set_permission_append_new:
  "u \<notin> set (map userId cs) \<Longrightarrow>
     set_permission u p (cs @ [\<lparr>userId = u, permission = p\<rparr>])
       = cs @ [\<lparr>userId = u, permission = p\<rparr>]"
  by (induction cs) auto

lemma set_permission_map:
  "distinct (map userId cs) \<Longrightarrow>
     set_permission u q cs = map (\<lambda>k. if userId k = u then k\<lparr>permission := q\<rparr> else k) cs"
proof (induction cs)
  case Nil
  then show ?case by simp
next
  case (Cons c cs)
  show ?case
  proof (cases "userId c = u")
    case True
    with Cons.prems have "u \<notin> set (map userId cs)" by auto
    then have "map (\<lambda>k. if userId k = u then k\<lparr>permission := q\<rparr> else k) cs = cs"
      by (induction cs) auto
    with True show ?thesis by simp
  next
    case False
    with Cons show ?thesis by simp
  qed
qed

lemma one_entry:
  "distinct (map userId cs) \<Longrightarrow> u \<in> set (map userId cs) \<Longrightarrow>
     length (filter (\<lambda>k. userId k = u) cs) = 1"
proof (induction cs)
  case Nil
  then show ?case by simp
next
  case (Cons c cs)
  show ?case
  proof (cases "userId c = u")
    case True
    with Cons.prems have "u \<notin> set (map userId cs)" by auto
    then have "filter (\<lambda>k. userId k = u) cs = []" by (induction cs) auto
    with True show ?thesis by simp
  next
    case False
    with Cons show ?thesis by auto
  qed
qed

lemma upsert_member: "u \<in> set (map userId (upsert u p cs))"
proof (cases "u \<in> set (map userId cs)")
  case True
  then have "u \<in> set (map userId (set_permission u p cs))"
    by (simp only: map_userId_set_permission)
  with True show ?thesis by (simp only: upsert_def if_True)
next
  case False
  then show ?thesis by (simp add: upsert_def)
qed

lemma upsert_idem: "upsert u p (upsert u p cs) = upsert u p cs"
  using upsert_member [of u p cs]
  by (auto simp: upsert_def set_permission_idem set_permission_append_new)

lemma length_upsert_again:
  "u \<in> set (map userId cs) \<Longrightarrow> length (upsert u q cs) = length cs"
  by (simp add: upsert_def length_set_permission)

lemma upsert_in_place:
  "distinct (map userId cs) \<Longrightarrow> u \<in> set (map userId cs) \<Longrightarrow>
     upsert u q cs = map (\<lambda>k. if userId k = u then k\<lparr>permission := q\<rparr> else k) cs"
  by (simp add: upsert_def set_permission_map)

section \<open>What every run preserves\<close>

lemma user_store_createNote: "user_store (fst (createNote s req now t c)) = user_store s"
  by (simp add: createNote_def Let_def split: option.splits)

lemma user_store_updateNote: "user_store (fst (updateNote s req now i t c)) = user_store s"
  by (simp add: updateNote_def Let_def split: option.splits attempt.splits)

lemma user_store_deleteNote: "user_store (fst (deleteNote s req i)) = user_store s"
  by (simp add: deleteNote_def split: option.splits)

lemma user_store_shareNote: "user_store (fst (shareNote s req i e p)) = user_store s"
  by (simp add: shareNote_def Let_def split: option.splits attempt.splits)

lemma user_store_step: "user_store (step s r) = user_store s"
  by (cases r) (simp_all add: user_store_createNote user_store_updateNote
      user_store_deleteNote user_store_shareNote)

lemma user_store_run: "user_store (run s rs) = user_store s"
  unfolding run_def by (induction rs arbitrary: s) (simp_all add: user_store_step)

lemma note_ok_set_fields: "note_ok us (set_fields t c now n) = note_ok us n"
  by (simp add: note_ok_def set_fields_eq)

lemma state_ok_createNote:
  "state_ok s \<Longrightarrow> req \<in> set (user_store s) \<Longrightarrow> state_ok (fst (createNote s req now t c))"
  by (auto simp: createNote_def state_ok_def note_ok_def new_Note_def all_resolved_def
      Let_def populate_member split: option.splits)

lemma state_ok_updateNote:
  assumes "state_ok s"
  shows "state_ok (fst (updateNote s req now i t c))"
proof -
  have "list_all (note_ok (user_store s)) (update_by_id i (set_fields t c now) (note_store s))"
    using assms unfolding state_ok_def
    by (rule list_all_update_by_id) (simp add: note_ok_set_fields)
  then show ?thesis using assms
    by (simp add: updateNote_def state_ok_def Let_def split: option.splits attempt.splits)
qed

lemma state_ok_deleteNote: "state_ok s \<Longrightarrow> state_ok (fst (deleteNote s req i))"
  by (simp add: deleteNote_def state_ok_def list_all_delete_by_id split: option.splits)

lemma state_ok_note:
  "state_ok s \<Longrightarrow> findById (note_store s) i = Some n \<Longrightarrow> note_ok (user_store s) n"
  by (auto simp: state_ok_def list_all_iff dest: findById_Some)

lemma state_ok_shareNote:
  assumes ok: "state_ok s"
  shows "state_ok (fst (shareNote s req i e p))"
proof (cases "fst (shareNote s req i e p) = s")
  case True
  with ok show ?thesis by simp
next
  case False
  then obtain doc target where
    d: "findById (note_store s) i = Some doc" and
    t: "findOne (user_store s) e = Some target" and
    r: "all_resolved (user_store s) (collaborators doc)"
    by (auto simp: shareNote_def Let_def split: if_splits option.splits attempt.splits)
  from ok d have dok: "note_ok (user_store s) doc" by (rule state_ok_note)
  have tres: "\<exists>q. populate (user_store s) (user_id target) = Some q"
    using t by (auto dest: findOne_Some intro: populate_member)
  have fc: "find_collaborator (user_store s) (user_id target) (collaborators doc)
      = Returned (List.find (\<lambda>c. userId c = user_id target) (collaborators doc))"
    using r by (rule find_collaborator_resolved)
  have upd: "state_ok
      (s\<lparr>note_store := update_by_id i (\<lambda>d. saved) (note_store s), outbox := ob\<rparr>)"
    if "note_ok (user_store s) saved" for saved ob
  proof -
    have "list_all (note_ok (user_store s)) (update_by_id i (\<lambda>d. saved) (note_store s))"
      using ok unfolding state_ok_def by (rule list_all_update_by_id) (rule that)
    then show ?thesis by (simp add: state_ok_def)
  qed
  have 1: "note_ok (user_store s)
      (doc\<lparr>collaborators := set_permission (user_id target) p (collaborators doc)\<rparr>)"
    using dok by (simp add: note_ok_def all_resolved_set_permission map_userId_set_permission)
  have 2: "note_ok (user_store s)
      (doc\<lparr>collaborators := collaborators doc @ [\<lparr>userId = user_id target, permission = p\<rparr>]\<rparr>)"
    if "List.find (\<lambda>c. userId c = user_id target) (collaborators doc) = None"
    using dok tres that by (auto simp: note_ok_def all_resolved_def find_userId_None)
  show ?thesis using d t r fc 1 2 ok
    by (auto simp: shareNote_def Let_def upd split: option.splits)
qed

lemma state_ok_step:
  "state_ok s \<Longrightarrow> requester r \<in> set (user_store s) \<Longrightarrow> state_ok (step s r)"
  by (cases r) (simp_all add: state_ok_createNote state_ok_updateNote state_ok_deleteNote
      state_ok_shareNote)

lemma state_ok_run:
  "state_ok s \<Longrightarrow> list_all (\<lambda>r. requester r \<in> set (user_store s)) rs \<Longrightarrow>
     state_ok (run s rs)"
  unfolding run_def
  by (induction rs arbitrary: s) (simp_all add: state_ok_step user_store_step)

text \<open>
  In every reachable state the stored notes refer to users of the collection, and no user
  has two collaborator entries in a note.
\<close>

lemma reachable_ok: "reachable us rs s \<Longrightarrow> state_ok s \<and> user_store s = us"
  using state_ok_run [of "initial us" rs]
  by (simp add: reachable_def user_store_run) (simp add: initial_def state_ok_def)

lemma note_ok_owner:
  "note_ok us n \<Longrightarrow>
     \<exists>owner. populate us (createdBy n) = Some owner \<and> user_id owner = createdBy n"
  by (auto simp: note_ok_def dest: populate_Some)

section \<open>The handlers on well-formed notes\<close>

lemma getNote_ok:
  assumes "findById (note_store s) i = Some n" and "note_ok (user_store s) n"
  shows "getNote s req i =
     (if createdBy n = user_id req \<or> user_id req \<in> set (map userId (collaborators n))
      then Inr \<lparr>resp_note = n, isOwnedByCurrentUser = (createdBy n = user_id req),
             userPermission = (if createdBy n = user_id req then ''write''
                else case List.find (\<lambda>c. userId c = user_id req) (collaborators n) of
                       Some c \<Rightarrow> permission c | None \<Rightarrow> ''read'')\<rparr>
      else Inl (403, ''Access denied''))"
proof -
  from assms(2) obtain owner where o: "populate (user_store s) (createdBy n) = Some owner"
    "user_id owner = createdBy n" using note_ok_owner by blast
  from assms(2) have fc: "find_collaborator (user_store s) (user_id req) (collaborators n)
      = Returned (List.find (\<lambda>c. userId c = user_id req) (collaborators n))"
    by (simp add: note_ok_def find_collaborator_resolved)
  show ?thesis
    using assms(1) o fc find_userId_None [of "user_id req" "collaborators n"]
    by (cases "List.find (\<lambda>c. userId c = user_id req) (collaborators n)")
       (simp_all add: getNote_def Let_def)
qed

lemma updateNote_ok:
  assumes "findById (note_store s) i = Some n" and "note_ok (user_store s) n"
  shows "updateNote s req now i t c =
     (if createdBy n = user_id req
         \<or> (\<exists>k \<in> set (collaborators n). userId k = user_id req \<and> permission k = ''write'')
      then (s\<lparr>note_store := update_by_id i (set_fields t c now) (note_store s),
              outbox := outbox s @
                [\<lparr>n_noteId = i,
                  n_message = ''Note '' @ [CHR 0x22] @ title (set_fields t c now n)
                    @ [CHR 0x22] @ '' was updated by '' @ name req,
                  n_excludedUserId = user_id req\<rparr>]\<rparr>,
            Inr \<lparr>resp_note = set_fields t c now n,
                 isOwnedByCurrentUser = (createdBy n = user_id req),
                 userPermission = (if createdBy n = user_id req then ''write''
                    else case List.find (\<lambda>k. userId k = user_id req) (collaborators n) of
                           Some k \<Rightarrow> permission k | None \<Rightarrow> ''read'')\<rparr>)
      else (s, Inl (403, ''Write access denied'')))"
proof -
  from assms(2) obtain owner where o: "populate (user_store s) (createdBy n) = Some owner"
    "user_id owner = createdBy n" using note_ok_owner by blast
  from assms(2) have res: "all_resolved (user_store s) (collaborators n)"
    and dis: "distinct (map userId (collaborators n))" by (simp_all add: note_ok_def)
  have fc: "find_collaborator (user_store s) (user_id req) (collaborators n)
      = Returned (List.find (\<lambda>k. userId k = user_id req) (collaborators n))"
    using res by (rule find_collaborator_resolved)
  have id: "note_id (set_fields t c now n) = i"
    using assms(1) by (simp add: set_fields_eq findById_Some)
  show ?thesis
  proof (cases "List.find (\<lambda>k. userId k = user_id req) (collaborators n)")
    case None
    then have "\<not> (\<exists>k \<in> set (collaborators n).
        userId k = user_id req \<and> permission k = ''write'')"
      by (auto simp: find_None_iff)
    with None show ?thesis using assms(1) o fc res id
      by (simp add: updateNote_def Let_def)
  next
    case (Some k)
    have mem: "k \<in> set (collaborators n) \<and> userId k = user_id req"
      using Some find_userId_Some [OF dis, of "user_id req" k] by simp
    have uniq: "k' = k" if "k' \<in> set (collaborators n) \<and> userId k' = user_id req" for k'
      using that Some find_userId_Some [OF dis, of "user_id req" k'] by simp
    have "(\<exists>k' \<in> set (collaborators n).
        userId k' = user_id req \<and> permission k' = ''write'') = (permission k = ''write'')"
      using mem uniq by blast
    with Some show ?thesis using assms(1) o fc res id
      by (simp add: updateNote_def Let_def)
  qed
qed

lemma updateNote_success:
  assumes "snd (updateNote s req now i t c) = Inr r"
      and "findById (note_store s) i = Some n"
  shows "note_store (fst (updateNote s req now i t c))
           = update_by_id i (set_fields t c now) (note_store s)"
    and "resp_note r = set_fields t c now n"
  using assms
  by (auto simp: updateNote_def Let_def split: option.splits attempt.splits if_splits)

lemma shareNote_ok:
  assumes f: "findById (note_store s) i = Some n" and ok: "note_ok (user_store s) n"
    and p: "p = ''read'' \<or> p = ''write''"
    and o: "createdBy n = user_id req"
    and t: "findOne (user_store s) e = Some target"
  shows "shareNote s req i e p =
     (s\<lparr>note_store := update_by_id i
            (\<lambda>d. n\<lparr>collaborators := upsert (user_id target) p (collaborators n)\<rparr>)
            (note_store s),
         outbox := outbox s @
           [\<lparr>n_noteId = i,
             n_message = ''You were given '' @ p @ '' access to '' @ [CHR 0x22] @ title n
               @ [CHR 0x22] @ '' by '' @ name req,
             n_excludedUserId = user_id target\<rparr>]\<rparr>,
      Inr (n\<lparr>collaborators := upsert (user_id target) p (collaborators n)\<rparr>))"
proof -
  from ok obtain owner where ow: "populate (user_store s) (createdBy n) = Some owner"
    "user_id owner = createdBy n" using note_ok_owner by blast
  from ok have res: "all_resolved (user_store s) (collaborators n)"
    by (simp add: note_ok_def)
  have fc: "find_collaborator (user_store s) (user_id target) (collaborators n)
      = Returned (List.find (\<lambda>k. userId k = user_id target) (collaborators n))"
    using res by (rule find_collaborator_resolved)
  have id: "note_id n = i" using f by (simp add: findById_Some)
  show ?thesis
  proof (cases "List.find (\<lambda>k. userId k = user_id target) (collaborators n)")
    case None
    then have "user_id target \<notin> set (map userId (collaborators n))"
      by (simp add: find_userId_None)
    with None show ?thesis using f p o t ow res fc id
      by (auto simp: shareNote_def Let_def upsert_def)
  next
    case (Some k)
    then have "user_id target \<in> set (map userId (collaborators n))"
      using find_userId_None [of "user_id target" "collaborators n"] by simp
    with Some show ?thesis using f p o t ow res fc id
      by (auto simp: shareNote_def Let_def upsert_def)
  qed
qed

lemma shareNote_success:
  assumes "snd (shareNote s req i e p) = Inr n1"
  shows "(p = ''read'' \<or> p = ''write'')
       \<and> (\<exists>n owner target. findById (note_store s) i = Some n
             \<and> populate (user_store s) (createdBy n) = Some owner
             \<and> user_id owner = user_id req
             \<and> findOne (user_store s) e = Some target)"
  using assms
  by (auto simp: shareNote_def Let_def split: if_splits option.splits attempt.splits)

section \<open>The owner and the collaborators list\<close>

lemma owner_not_stored_createNote:
  "owner_not_stored s \<Longrightarrow> owner_not_stored (fst (createNote s req now t c))"
  by (simp add: createNote_def owner_not_stored_def new_Note_def Let_def split: option.splits)

lemma owner_not_stored_updateNote:
  assumes "owner_not_stored s"
  shows "owner_not_stored (fst (updateNote s req now i t c))"
proof -
  have "list_all (\<lambda>n. createdBy n \<notin> set (map userId (collaborators n)))
      (update_by_id i (set_fields t c now) (note_store s))"
    using assms unfolding owner_not_stored_def
    by (rule list_all_update_by_id) (simp add: set_fields_eq)
  then show ?thesis using assms
    by (simp add: updateNote_def owner_not_stored_def Let_def
        split: option.splits attempt.splits)
qed

lemma owner_not_stored_deleteNote:
  "owner_not_stored s \<Longrightarrow> owner_not_stored (fst (deleteNote s req i))"
  by (simp add: deleteNote_def owner_not_stored_def list_all_delete_by_id split: option.splits)

lemma owner_not_stored_shareNote:
  assumes inv: "owner_not_stored s"
    and ns: "\<not> self_share (user_store s) (ShareNote req i e p)"
  shows "owner_not_stored (fst (shareNote s req i e p))"
proof (cases "fst (shareNote s req i e p) = s")
  case True
  with inv show ?thesis by simp
next
  case False
  then obtain doc owner target where
    d: "findById (note_store s) i = Some doc" and
    o: "populate (user_store s) (createdBy doc) = Some owner" "user_id owner = user_id req" and
    t: "findOne (user_store s) e = Some target"
    by (auto simp: shareNote_def Let_def split: if_splits option.splits attempt.splits)
  from o have own: "createdBy doc = user_id req" by (auto dest: populate_Some)
  from ns t have diff: "user_id target \<noteq> user_id req" by simp
  from d inv have old: "createdBy doc \<notin> set (map userId (collaborators doc))"
    by (auto simp: owner_not_stored_def list_all_iff dest: findById_Some)
  have upd: "owner_not_stored
      (s\<lparr>note_store := update_by_id i (\<lambda>d. saved) (note_store s), outbox := ob\<rparr>)"
    if "createdBy saved \<notin> set (map userId (collaborators saved))" for saved ob
  proof -
    have "list_all (\<lambda>n. createdBy n \<notin> set (map userId (collaborators n)))
        (update_by_id i (\<lambda>d. saved) (note_store s))"
      using inv unfolding owner_not_stored_def by (rule list_all_update_by_id) (rule that)
    then show ?thesis by (simp add: owner_not_stored_def)
  qed
  have 1: "createdBy doc
      \<notin> set (map userId (set_permission (user_id target) p (collaborators doc)))"
    using old by (simp add: map_userId_set_permission)
  have 2: "createdBy doc \<notin> set (map userId
      (collaborators doc @ [\<lparr>userId = user_id target, permission = p\<rparr>]))"
    using old own diff by simp
  show ?thesis using d o t inv 1 2
    by (auto simp: shareNote_def Let_def intro!: upd split: option.splits attempt.splits)
qed

lemma owner_not_stored_step:
  "owner_not_stored s \<Longrightarrow> \<not> self_share (user_store s) r \<Longrightarrow> owner_not_stored (step s r)"
  by (cases r) (simp_all add: owner_not_stored_createNote owner_not_stored_updateNote
      owner_not_stored_deleteNote owner_not_stored_shareNote)

lemma owner_not_stored_run:
  "owner_not_stored s \<Longrightarrow> list_all (\<lambda>r. \<not> self_share (user_store s) r) rs \<Longrightarrow>
     owner_not_stored (run s rs)"
  unfolding run_def
  by (induction rs arbitrary: s) (simp_all add: owner_not_stored_step user_store_step)

section \<open>The sample run\<close>

lemma sample_reachable: "reachable sample_users sample_requests sample_state"
  by (simp add: reachable_def sample_state_def sample_requests_def sample_users_def)

lemma sample_findById: "findById (note_store sample_state) 0 = Some trip_plan"
  by code_simp

lemma sample_findById_none: "findById (note_store sample_state) 7 = None"
  by code_simp

lemma created_reachable: "reachable sample_users created_requests created_state"
  by (simp add: reachable_def created_state_def created_requests_def sample_users_def)

section \<open>Properties of the controller\<close>

subsection \<open>Share notification\<close>

text \<open>
  C1. A successful \<open>shareNote\<close> is to notify the target user only, with a message naming
  the note title, the granted permission and the owner's name. The handler builds that
  message, but passes the target's identifier as \<open>excludedUserId\<close>: when Alice gives Bob
  write access to ``Trip Plan'' while Alice, Bob and Carol watch the note, the message goes
  to Alice and Carol and not to Bob.
\<close>

theorem shareNote_notification_misses_target:
  "succeeded (snd (shareNote shared_with_carol alice 0 ''bob@example.com'' ''write''))
   \<and> outbox (fst (shareNote shared_with_carol alice 0 ''bob@example.com'' ''write''))
       = outbox shared_with_carol @
           [\<lparr>n_noteId = 0,
             n_message = ''You were given write access to '' @ [CHR 0x22] @ ''Trip Plan''
               @ [CHR 0x22] @ '' by Alice'',
             n_excludedUserId = user_id bob\<rparr>]
   \<and> map fst (notifyCollaborators [user_id alice, user_id bob, user_id carol]
         (last (outbox (fst (shareNote shared_with_carol alice 0 ''bob@example.com''
            ''write'')))))
       = [user_id alice, user_id carol]"
  by code_simp

subsection \<open>Create note\<close>

text \<open>
  C2, as the claim states it, fails: a request without a title is answered with status
  500, an InternalError, and not with a ValidationError.
\<close>

theorem createNote_missing_title_is_internal_error:
  "snd (createNote (initial sample_users) alice 5 None (Some ''text''))
     = Inl (500, ''Error creating note'')
   \<and> failed_with (snd (createNote (initial sample_users) alice 5 None (Some ''text'')))
        InternalError
   \<and> \<not> failed_with (snd (createNote (initial sample_users) alice 5 None (Some ''text'')))
        ValidationError"
  by code_simp

text \<open>
  C2, amended. \<open>createNote\<close> never answers with a ValidationError. Whenever the supplied
  title is missing or empty after trimming, it fails with an InternalError (status 500)
  and leaves the state as it was, so that no note is created.
\<close>

theorem createNote_invalid_title:
  "\<not> failed_with (snd (createNote s req now t c)) ValidationError
   \<and> (t = None \<or> (\<exists>x. t = Some x \<and> trim x = []) \<longrightarrow>
        failed_with (snd (createNote s req now t c)) InternalError
      \<and> fst (createNote s req now t c) = s)"
  by (auto simp: createNote_def failed_with_def title_valid_def Let_def split: option.splits)

theorem createNote_invalid_title_witness:
  "trim ''  '' = []
   \<and> failed_with (snd (createNote (initial sample_users) alice 5 (Some ''  '') None))
        InternalError
   \<and> fst (createNote (initial sample_users) alice 5 (Some ''  '') None)
       = initial sample_users"
proof -
  have e: "trim ''  '' = []" by code_simp
  show ?thesis
    using e createNote_invalid_title [of "initial sample_users" alice 5 "Some ''  ''" None]
    by simp
qed

subsection \<open>The owner is not a collaborator\<close>

text \<open>
  C3, as the claim states it, fails: when Alice shares her note with her own email address,
  the handler stores her as a collaborator of the note she owns.
\<close>

theorem self_share_stores_owner:
  "reachable sample_users self_share_requests (run (initial sample_users) self_share_requests)
   \<and> note_store (run (initial sample_users) self_share_requests) =
       [\<lparr>note_id = 0, title = ''Trip Plan'', content = None, createdBy = 1,
         collaborators = [\<lparr>userId = 1, permission = ''read''\<rparr>],
         isArchived = False, lastUpdated = 5\<rparr>]
   \<and> \<not> owner_not_stored (run (initial sample_users) self_share_requests)"
  by code_simp

text \<open>
  C3, amended. In every state reached by create, update, delete and share requests none of
  which shares a note with the requester's own email address, no note lists its owner among
  its collaborators.
\<close>

theorem owner_not_stored_without_self_share:
  assumes "reachable us rs s" and "list_all (\<lambda>r. \<not> self_share us r) rs"
  shows "owner_not_stored s"
  using assms owner_not_stored_run [of "initial us" rs]
  by (simp add: reachable_def) (simp add: initial_def owner_not_stored_def)

theorem owner_not_stored_without_self_share_witness:
  "reachable sample_users sample_requests sample_state
   \<and> list_all (\<lambda>r. \<not> self_share sample_users r) sample_requests
   \<and> owner_not_stored sample_state"
proof -
  have r: "reachable sample_users sample_requests sample_state" by (rule sample_reachable)
  have n: "list_all (\<lambda>r. \<not> self_share sample_users r) sample_requests" by code_simp
  from owner_not_stored_without_self_share [OF r n] r n show ?thesis by simp
qed

subsection \<open>Who may update\<close>

text \<open>
  C4. In every reachable state, \<open>updateNote\<close> on an existing note succeeds exactly when
  the requester is its owner or has a collaborator entry with permission \<open>write\<close>, and
  fails with Forbidden otherwise; on an identifier that does not resolve it fails with
  NotFound.
\<close>

theorem updateNote_authorization:
  assumes "reachable us rs s"
  shows "(findById (note_store s) i = None \<longrightarrow>
            failed_with (snd (updateNote s req now i t c)) NotFound)
       \<and> (\<forall>n. findById (note_store s) i = Some n \<longrightarrow>
            (succeeded (snd (updateNote s req now i t c)) \<longleftrightarrow>
               createdBy n = user_id req
               \<or> (\<exists>k \<in> set (collaborators n).
                     userId k = user_id req \<and> permission k = ''write''))
          \<and> (\<not> (createdBy n = user_id req
                 \<or> (\<exists>k \<in> set (collaborators n).
                       userId k = user_id req \<and> permission k = ''write''))
               \<longrightarrow> failed_with (snd (updateNote s req now i t c)) Forbidden))"
proof -
  from assms have ok: "state_ok s" by (simp add: reachable_ok)
  have nf: "findById (note_store s) i = None \<Longrightarrow>
      failed_with (snd (updateNote s req now i t c)) NotFound"
    by (simp add: updateNote_def failed_with_def)
  have found: "(succeeded (snd (updateNote s req now i t c)) \<longleftrightarrow>
               createdBy n = user_id req
               \<or> (\<exists>k \<in> set (collaborators n).
                     userId k = user_id req \<and> permission k = ''write''))
          \<and> (\<not> (createdBy n = user_id req
                 \<or> (\<exists>k \<in> set (collaborators n).
                       userId k = user_id req \<and> permission k = ''write''))
               \<longrightarrow> failed_with (snd (updateNote s req now i t c)) Forbidden)"
    if "findById (note_store s) i = Some n" for n
    using updateNote_ok [OF that state_ok_note [OF ok that], of req now t c]
    by (simp add: succeeded_def failed_with_def)
  show ?thesis using nf found by blast
qed

theorem updateNote_authorization_witness:
  "reachable sample_users sample_requests sample_state
   \<and> findById (note_store sample_state) 0 = Some trip_plan
   \<and> succeeded (snd (updateNote sample_state bob 9 0 None (Some ''Pack bags'')))
   \<and> failed_with (snd (updateNote sample_state carol 9 0 None (Some ''Pack bags''))) Forbidden
   \<and> failed_with (snd (updateNote sample_state alice 9 7 None (Some ''Pack bags''))) NotFound"
proof -
  have r: "reachable sample_users sample_requests sample_state" by (rule sample_reachable)
  have f: "findById (note_store sample_state) 0 = Some trip_plan" by (rule sample_findById)
  have g: "findById (note_store sample_state) 7 = None" by (rule sample_findById_none)
  show ?thesis
    using r f g updateNote_authorization [OF r, of 0 bob 9 None "Some ''Pack bags''"]
      updateNote_authorization [OF r, of 0 carol 9 None "Some ''Pack bags''"]
      updateNote_authorization [OF r, of 7 alice 9 None "Some ''Pack bags''"]
    by (simp add: trip_plan_def carol_def bob_def)
qed

subsection \<open>Who may read\<close>

text \<open>
  C5. In every reachable state, \<open>getNote\<close> on an existing note succeeds exactly when the
  requester is its owner or has a collaborator entry, whatever its permission; a requester
  with neither role is answered Forbidden; and \<open>getNote\<close> fails with NotFound exactly when
  the identifier does not resolve.
\<close>

theorem getNote_access:
  assumes "reachable us rs s"
  shows "(failed_with (getNote s req i) NotFound \<longleftrightarrow> findById (note_store s) i = None)
       \<and> (\<forall>n. findById (note_store s) i = Some n \<longrightarrow>
            (succeeded (getNote s req i) \<longleftrightarrow>
               createdBy n = user_id req
               \<or> user_id req \<in> set (map userId (collaborators n)))
          \<and> (\<not> (createdBy n = user_id req
                 \<or> user_id req \<in> set (map userId (collaborators n)))
               \<longrightarrow> failed_with (getNote s req i) Forbidden))"
proof -
  from assms have ok: "state_ok s" by (simp add: reachable_ok)
  have nf: "findById (note_store s) i = None \<Longrightarrow> failed_with (getNote s req i) NotFound"
    by (simp add: getNote_def failed_with_def)
  have found: "succeeded (getNote s req i) =
        (createdBy n = user_id req \<or> user_id req \<in> set (map userId (collaborators n)))
      \<and> (\<not> (createdBy n = user_id req \<or> user_id req \<in> set (map userId (collaborators n)))
            \<longrightarrow> failed_with (getNote s req i) Forbidden)
      \<and> \<not> failed_with (getNote s req i) NotFound"
    if "findById (note_store s) i = Some n" for n
    using getNote_ok [OF that state_ok_note [OF ok that], of req]
    by (simp add: succeeded_def failed_with_def)
  show ?thesis using nf found by (cases "findById (note_store s) i") auto
qed

theorem getNote_access_witness:
  "reachable sample_users sample_requests sample_state
   \<and> findById (note_store sample_state) 0 = Some trip_plan
   \<and> succeeded (getNote sample_state carol 0)
   \<and> failed_with (getNote sample_state dave 0) Forbidden
   \<and> failed_with (getNote sample_state carol 7) NotFound"
proof -
  have r: "reachable sample_users sample_requests sample_state" by (rule sample_reachable)
  have f: "findById (note_store sample_state) 0 = Some trip_plan" by (rule sample_findById)
  have g: "findById (note_store sample_state) 7 = None" by (rule sample_findById_none)
  show ?thesis
    using r f g getNote_access [OF r, of carol 0] getNote_access [OF r, of dave 0]
      getNote_access [OF r, of carol 7]
    by (simp add: trip_plan_def carol_def dave_def)
qed

subsection \<open>Who may delete\<close>

text \<open>
  C6. For an existing note, \<open>deleteNote\<close> succeeds exactly when the requester is the owner;
  any other requester, whatever the collaborators list grants, is answered Forbidden, and
  the state, hence the stored note, is unchanged.
\<close>

theorem deleteNote_owner_only:
  assumes "findById (note_store s) i = Some n"
  shows "(succeeded (snd (deleteNote s req i)) \<longleftrightarrow> createdBy n = user_id req)
       \<and> (createdBy n \<noteq> user_id req \<longrightarrow>
            failed_with (snd (deleteNote s req i)) Forbidden
          \<and> fst (deleteNote s req i) = s
          \<and> findById (note_store (fst (deleteNote s req i))) i = Some n)"
  using assms by (simp add: deleteNote_def succeeded_def failed_with_def)

theorem deleteNote_owner_only_witness:
  "findById (note_store sample_state) 0 = Some trip_plan
   \<and> \<lparr>userId = user_id bob, permission = ''write''\<rparr> \<in> set (collaborators trip_plan)
   \<and> failed_with (snd (deleteNote sample_state bob 0)) Forbidden
   \<and> fst (deleteNote sample_state bob 0) = sample_state
   \<and> succeeded (snd (deleteNote sample_state alice 0))"
proof -
  have f: "findById (note_store sample_state) 0 = Some trip_plan" by (rule sample_findById)
  show ?thesis
    using f deleteNote_owner_only [OF f, of bob] deleteNote_owner_only [OF f, of alice]
    by (simp add: trip_plan_def bob_def alice_def)
qed

subsection \<open>Sharing is an upsert\<close>

text \<open>
  C7. In every reachable state, after a successful \<open>shareNote\<close> the note has exactly one
  collaborator entry for the target user. Sharing again with the same email and permission
  succeeds and leaves the stored notes, that note included, as they are. Sharing again
  with another permission succeeds and overwrites the permission of that entry where it
  stands: the list keeps its length, and every other entry is as before.
\<close>

theorem shareNote_idempotent_upsert:
  assumes r: "reachable us rs s"
      and t: "findOne us e = Some target"
      and sh: "shareNote s req i e p = (s1, Inr n1)"
  shows "length (filter (\<lambda>k. userId k = user_id target) (collaborators n1)) = 1
       \<and> findById (note_store s1) i = Some n1
       \<and> snd (shareNote s1 req i e p) = Inr n1
       \<and> note_store (fst (shareNote s1 req i e p)) = note_store s1
       \<and> (q = ''read'' \<or> q = ''write'' \<longrightarrow>
            (\<exists>n3. snd (shareNote s1 req i e q) = Inr n3
               \<and> findById (note_store (fst (shareNote s1 req i e q))) i = Some n3
               \<and> length (collaborators n3) = length (collaborators n1)
               \<and> collaborators n3 =
                   map (\<lambda>k. if userId k = user_id target then k\<lparr>permission := q\<rparr> else k)
                     (collaborators n1)))"
proof -
  from r have ok: "state_ok s" and us: "user_store s = us" by (simp_all add: reachable_ok)
  from sh have "snd (shareNote s req i e p) = Inr n1" by simp
  from shareNote_success [OF this] t us obtain n owner where
    p: "p = ''read'' \<or> p = ''write''" and f: "findById (note_store s) i = Some n"
    and ow: "populate (user_store s) (createdBy n) = Some owner" "user_id owner = user_id req"
    by auto
  from ow have o: "createdBy n = user_id req" by (auto dest: populate_Some)
  have nok: "note_ok (user_store s) n" using ok f by (rule state_ok_note)
  have t': "findOne (user_store s) e = Some target" using t us by simp
  let ?u = "user_id target"
  from shareNote_ok [OF f nok p o t'] sh
  have n1: "n1 = n\<lparr>collaborators := upsert ?u p (collaborators n)\<rparr>"
    and s1: "s1 = fst (shareNote s req i e p)"
    and ns1: "note_store s1 = update_by_id i (\<lambda>d. n1) (note_store s)"
    by auto
  have id: "note_id n = i" using f by (simp add: findById_Some)
  have ok1: "state_ok s1" unfolding s1 using ok by (rule state_ok_shareNote)
  have us1: "user_store s1 = user_store s" unfolding s1 by (rule user_store_shareNote)
  have f1: "findById (note_store s1) i = Some n1"
    unfolding ns1 using f by (rule findById_update_by_id) (simp add: n1 id)
  have nok1: "note_ok (user_store s1) n1" using ok1 f1 by (rule state_ok_note)
  then have dis1: "distinct (map userId (collaborators n1))" by (simp add: note_ok_def)
  have mem1: "?u \<in> set (map userId (collaborators n1))"
    using upsert_member [of ?u p "collaborators n"] by (simp add: n1)
  have o1: "createdBy n1 = user_id req" using o by (simp add: n1)
  have t1: "findOne (user_store s1) e = Some target" using t' us1 by simp
  have one: "length (filter (\<lambda>k. userId k = ?u) (collaborators n1)) = 1"
    using dis1 mem1 by (rule one_entry)
  have same: "n1\<lparr>collaborators := upsert ?u p (collaborators n1)\<rparr> = n1"
    by (simp add: n1 upsert_idem)
  have again: "snd (shareNote s1 req i e p) = Inr n1
      \<and> note_store (fst (shareNote s1 req i e p)) = note_store s1"
    using shareNote_ok [OF f1 nok1 p o1 t1] update_by_id_same [OF f1]
    by (simp add: same)
  have other: "\<exists>n3. snd (shareNote s1 req i e q) = Inr n3
               \<and> findById (note_store (fst (shareNote s1 req i e q))) i = Some n3
               \<and> length (collaborators n3) = length (collaborators n1)
               \<and> collaborators n3 =
                   map (\<lambda>k. if userId k = ?u then k\<lparr>permission := q\<rparr> else k)
                     (collaborators n1)"
    if q: "q = ''read'' \<or> q = ''write''"
  proof -
    let ?n3 = "n1\<lparr>collaborators := upsert ?u q (collaborators n1)\<rparr>"
    have "note_id ?n3 = i" by (simp add: n1 id)
    with f1 have "findById (update_by_id i (\<lambda>d. ?n3) (note_store s1)) i = Some ?n3"
      by (rule findById_update_by_id)
    then show ?thesis
      using shareNote_ok [OF f1 nok1 q o1 t1] length_upsert_again [OF mem1, of q]
        upsert_in_place [OF dis1 mem1, of q]
      by simp
  qed
  show ?thesis using one f1 again other by blast
qed

theorem shareNote_idempotent_upsert_witness:
  "reachable sample_users created_requests created_state
   \<and> findOne sample_users ''carol@example.com'' = Some carol
   \<and> snd (shareNote created_state alice 0 ''carol@example.com'' ''read'')
       = Inr (trip_plan\<lparr>collaborators := [\<lparr>userId = 3, permission = ''read''\<rparr>]\<rparr>)
   \<and> snd (shareNote shared_with_carol alice 0 ''carol@example.com'' ''read'')
       = Inr (trip_plan\<lparr>collaborators := [\<lparr>userId = 3, permission = ''read''\<rparr>]\<rparr>)
   \<and> note_store (fst (shareNote shared_with_carol alice 0 ''carol@example.com'' ''read''))
       = note_store shared_with_carol
   \<and> (\<exists>n3. snd (shareNote shared_with_carol alice 0 ''carol@example.com'' ''write'') = Inr n3
         \<and> collaborators n3 = [\<lparr>userId = 3, permission = ''write''\<rparr>])"
proof -
  let ?n1 = "trip_plan\<lparr>collaborators := [\<lparr>userId = 3, permission = ''read''\<rparr>]\<rparr>"
  have r: "reachable sample_users created_requests created_state" by (rule created_reachable)
  have t: "findOne sample_users ''carol@example.com'' = Some carol" by code_simp
  have s1: "fst (shareNote created_state alice 0 ''carol@example.com'' ''read'')
      = shared_with_carol" by code_simp
  have n1: "snd (shareNote created_state alice 0 ''carol@example.com'' ''read'') = Inr ?n1"
    by code_simp
  have sh: "shareNote created_state alice 0 ''carol@example.com'' ''read''
      = (shared_with_carol, Inr ?n1)"
    using s1 n1 by (simp add: prod_eq_iff)
  show ?thesis
    using r t n1 shareNote_idempotent_upsert [OF r t sh, of "''write''"]
    by (auto simp: carol_def)
qed

subsection \<open>What an update changes\<close>

text \<open>
  C8. After a successful \<open>updateNote\<close> the note is the former note with the supplied title
  and content in place of the old ones, an omitted one staying as it was, and with
  \<open>lastUpdated\<close> set to the current time whatever the values; its identifier, owner,
  collaborators and archive flag are unchanged. That note is answered and stored, and
  every other note is stored as before.
\<close>

theorem updateNote_frame:
  assumes "findById (note_store s) i = Some n"
      and "snd (updateNote s req now i t c) = Inr r"
  shows "resp_note r =
           n\<lparr>title := (case t of None \<Rightarrow> title n | Some x \<Rightarrow> x),
             content := (case c of None \<Rightarrow> content n | Some y \<Rightarrow> Some y),
             lastUpdated := now\<rparr>
       \<and> lastUpdated (resp_note r) = now
       \<and> note_id (resp_note r) = note_id n
       \<and> createdBy (resp_note r) = createdBy n
       \<and> collaborators (resp_note r) = collaborators n
       \<and> isArchived (resp_note r) = isArchived n
       \<and> findById (note_store (fst (updateNote s req now i t c))) i = Some (resp_note r)
       \<and> (\<forall>j. j \<noteq> i \<longrightarrow> findById (note_store (fst (updateNote s req now i t c))) j
                         = findById (note_store s) j)"
proof -
  have st: "note_store (fst (updateNote s req now i t c))
      = update_by_id i (set_fields t c now) (note_store s)"
    and rn: "resp_note r = set_fields t c now n"
    using updateNote_success [OF assms(2) assms(1)] by simp_all
  have id: "note_id (set_fields t c now m) = note_id m" for m
    by (simp add: set_fields_eq)
  have "findById (update_by_id i (set_fields t c now) (note_store s)) i
      = Some (set_fields t c now n)"
    using assms(1) by (rule findById_update_by_id) (simp add: id findById_Some [OF assms(1)])
  moreover have "findById (update_by_id i (set_fields t c now) (note_store s)) j
      = findById (note_store s) j" if "j \<noteq> i" for j
    using that by (rule findById_update_by_id_other) (rule id)
  ultimately show ?thesis using st rn by (simp add: set_fields_eq)
qed

theorem updateNote_frame_witness:
  "findById (note_store sample_state) 0 = Some trip_plan
   \<and> snd (updateNote sample_state bob 9 0 None (Some ''Pack bags''))
       = Inr \<lparr>resp_note = trip_plan\<lparr>content := Some ''Pack bags'', lastUpdated := 9\<rparr>,
              isOwnedByCurrentUser = False, userPermission = ''write''\<rparr>
   \<and> title (trip_plan\<lparr>content := Some ''Pack bags'', lastUpdated := 9\<rparr>) = ''Trip Plan''
   \<and> findById (note_store (fst (updateNote sample_state bob 9 0 None (Some ''Pack bags'')))) 0
       = Some (trip_plan\<lparr>content := Some ''Pack bags'', lastUpdated := 9\<rparr>)"
proof -
  have f: "findById (note_store sample_state) 0 = Some trip_plan" by (rule sample_findById)
  have u: "snd (updateNote sample_state bob 9 0 None (Some ''Pack bags''))
       = Inr \<lparr>resp_note = trip_plan\<lparr>content := Some ''Pack bags'', lastUpdated := 9\<rparr>,
              isOwnedByCurrentUser = False, userPermission = ''write''\<rparr>"
    by code_simp
  show ?thesis using f u updateNote_frame [OF f u] by (simp add: trip_plan_def)
qed

subsection \<open>Listing for a user without notes\<close>

text \<open>
  C9, as the claim states it, fails at page 2: with no matching note the handler answers
  without error, but with \<open>currentPage\<close> 2, \<open>totalPages\<close> 1 and \<open>hasPrevPage\<close> true, which
  is not the listing it answers at page 1.
\<close>

theorem getNotes_page_two_of_nothing:
  "getNotes (initial sample_users) alice (Some 2) None None
     = Inr \<lparr>listed_notes = [],
            pagination = \<lparr>currentPage = 2, totalPages = 1, totalNotes = 0,
                          hasNextPage = False, hasPrevPage = True\<rparr>\<rparr>
   \<and> getNotes (initial sample_users) alice (Some 2) None None \<noteq> Inr zero_listing"
  by code_simp

text \<open>
  C9, amended. For a user with no note matching the archived filter, listing at page 1
  (also when the page is absent or 0) answers exactly the zero listing; listing at a page
  above 1, with a page size that is not negative, answers no error either, but the empty
  listing of that page with \<open>totalPages\<close> 1, no next page and a previous page.
\<close>

theorem getNotes_no_matching_notes:
  assumes "filter (query_matches (user_id req) (a = Some ''true'')) (note_store s) = []"
  shows "(page_q = None \<or> page_q = Some 0 \<or> page_q = Some 1 \<longrightarrow>
            getNotes s req page_q limit_q a = Inr zero_listing)
       \<and> (\<forall>p. page_q = Some p \<and> 1 < p \<and> (\<forall>l. limit_q = Some l \<longrightarrow> 0 \<le> l) \<longrightarrow>
            getNotes s req page_q limit_q a =
              Inr \<lparr>listed_notes = [],
                   pagination = \<lparr>currentPage = p, totalPages = 1, totalNotes = 0,
                                 hasNextPage = False, hasPrevPage = True\<rparr>\<rparr>)"
proof -
  have one: "getNotes s req page_q limit_q a = Inr zero_listing"
    if "page_q = None \<or> page_q = Some 0 \<or> page_q = Some 1"
    using that assms by (auto simp: getNotes_def zero_listing_def Let_def)
  have more: "getNotes s req page_q limit_q a =
              Inr \<lparr>listed_notes = [],
                   pagination = \<lparr>currentPage = p, totalPages = 1, totalNotes = 0,
                                 hasNextPage = False, hasPrevPage = True\<rparr>\<rparr>"
    if p: "page_q = Some p" "1 < p" and l: "\<forall>l. limit_q = Some l \<longrightarrow> 0 \<le> l" for p
  proof -
    define limit where
      "limit = (case limit_q of None \<Rightarrow> 10 | Some l \<Rightarrow> if l = 0 then 10 else l)"
    have pos: "0 < limit" using l by (auto simp: limit_def split: option.splits)
    then have skip: "\<not> (p - 1) * limit < 0" using p(2) by (simp add: mult_less_0_iff)
    have c: "ceil_div 0 limit = 0" by (simp add: ceil_div_def)
    show ?thesis using p assms skip c
      by (simp add: getNotes_def Let_def limit_def [symmetric])
  qed
  show ?thesis using one more by blast
qed

theorem getNotes_no_matching_notes_witness:
  "filter (query_matches (user_id dave) (None = Some ''true'')) (note_store sample_state) = []
   \<and> getNotes sample_state dave (Some 1) (Some 10) None = Inr zero_listing
   \<and> getNotes sample_state dave (Some 3) (Some 10) None =
       Inr \<lparr>listed_notes = [],
            pagination = \<lparr>currentPage = 3, totalPages = 1, totalNotes = 0,
                          hasNextPage = False, hasPrevPage = True\<rparr>\<rparr>"
proof -
  have e: "filter (query_matches (user_id dave) (None = Some ''true''))
      (note_store sample_state) = []"
    by code_simp
  show ?thesis
    using e getNotes_no_matching_notes [OF e, of "Some 1" "Some 10"]
      getNotes_no_matching_notes [OF e, of "Some 3" "Some 10"]
    by simp
qed

subsection \<open>An update validates nothing\<close>

text \<open>
  C10. \<open>updateNote\<close> never fails with a ValidationError. In every reachable state, for a
  requester who is the owner or a \<open>write\<close> collaborator of an existing note, the update
  succeeds whatever title and content are supplied, the empty title included, and the
  stored note has exactly the supplied values.
\<close>

theorem updateNote_no_validation:
  "\<not> failed_with (snd (updateNote s req now i t c)) ValidationError
   \<and> (reachable us rs s \<longrightarrow> findById (note_store s) i = Some n \<longrightarrow>
        (createdBy n = user_id req
         \<or> (\<exists>k \<in> set (collaborators n). userId k = user_id req \<and> permission k = ''write''))
      \<longrightarrow> succeeded (snd (updateNote s req now i t c))
          \<and> (\<exists>m. findById (note_store (fst (updateNote s req now i t c))) i = Some m
                \<and> (\<forall>x. t = Some x \<longrightarrow> title m = x)
                \<and> (\<forall>y. c = Some y \<longrightarrow> content m = Some y)))"
proof -
  have never: "\<not> failed_with (snd (updateNote s req now i t c)) ValidationError"
    by (simp add: updateNote_def failed_with_def Let_def split: option.splits attempt.splits)
  have stores: "succeeded (snd (updateNote s req now i t c))
          \<and> (\<exists>m. findById (note_store (fst (updateNote s req now i t c))) i = Some m
                \<and> (\<forall>x. t = Some x \<longrightarrow> title m = x)
                \<and> (\<forall>y. c = Some y \<longrightarrow> content m = Some y))"
    if r: "reachable us rs s" and f: "findById (note_store s) i = Some n"
      and w: "createdBy n = user_id req
         \<or> (\<exists>k \<in> set (collaborators n). userId k = user_id req \<and> permission k = ''write'')"
  proof -
    from r have ok: "state_ok s" by (simp add: reachable_ok)
    have id: "note_id (set_fields t c now n) = i"
      using f by (simp add: set_fields_eq findById_Some)
    have "findById (update_by_id i (set_fields t c now) (note_store s)) i
        = Some (set_fields t c now n)"
      using f id by (rule findById_update_by_id)
    moreover have "\<forall>x. t = Some x \<longrightarrow> title (set_fields t c now n) = x"
      by (simp add: set_fields_eq)
    moreover have "\<forall>y. c = Some y \<longrightarrow> content (set_fields t c now n) = Some y"
      by (simp add: set_fields_eq)
    ultimately show ?thesis
      using updateNote_ok [OF f state_ok_note [OF ok f], of req now t c] w
      by (simp add: succeeded_def)
  qed
  show ?thesis using never stores by blast
qed

theorem updateNote_no_validation_witness:
  "reachable sample_users sample_requests sample_state
   \<and> findById (note_store sample_state) 0 = Some trip_plan
   \<and> \<lparr>userId = user_id bob, permission = ''write''\<rparr> \<in> set (collaborators trip_plan)
   \<and> succeeded (snd (updateNote sample_state bob 9 0 (Some []) None))
   \<and> (\<exists>m. findById (note_store (fst (updateNote sample_state bob 9 0 (Some []) None))) 0
            = Some m
          \<and> title m = [])"
proof -
  have r: "reachable sample_users sample_requests sample_state" by (rule sample_reachable)
  have f: "findById (note_store sample_state) 0 = Some trip_plan" by (rule sample_findById)
  show ?thesis
    using r f updateNote_no_validation [of sample_state bob 9 0 "Some []" None
        sample_users sample_requests trip_plan]
    by (simp add: trip_plan_def bob_def)
qed

end
